theory Spec2Isabelle
  imports Main "HOL-Library.Char_ord" "HOL-Library.List_Lexorder" "HOL-Library.Multiset"
begin

section \<open>JavaScript values and errors\<close>

text \<open>
  The values a request body or a response body can hold. \<open>JUndefined\<close> is the absent
  value, \<open>JBigInt\<close> a BigInt (which \<open>JSON.stringify\<close> refuses), \<open>JObj\<close> lists the
  own enumerable properties of a plain object, each key once, in the engine's
  enumeration order. Numbers are the integers, written in decimal. Strings are lists of
  8-bit code units.
\<close>

datatype json =
    JUndefined
  | JNull
  | JBool bool
  | JNum int
  | JBigInt int
  | JStr string
  | JArr "json list"
  | JObj "(string \<times> json) list"

text \<open>What a \<open>throw\<close> carries: the TypeError of \<open>JSON.stringify\<close>, or a failure of the
  database driver with its message.\<close>

datatype error = TypeError | StoreError string

section \<open>Number and string rendering\<close>

definition digit :: "nat \<Rightarrow> char" where
  "digit d = ''0123456789'' ! (d mod 10)"

fun digits :: "nat \<Rightarrow> string" where
  "digits n = (if n < 10 then [digit n] else digits (n div 10) @ [digit n])"

definition ToString :: "int \<Rightarrow> string" where
  "ToString i = (if i < 0 then CHR ''-'' # digits (nat (- i)) else digits (nat i))"

definition hexdigit :: "nat \<Rightarrow> char" where
  "hexdigit d = ''0123456789abcdef'' ! (d mod 16)"

text \<open>\<open>QuoteJSONString\<close> of ECMA-262: the two-character escapes, \<open>\u00XX\<close> for the
  other control characters, every other code unit as it is.\<close>

definition quote_char :: "char \<Rightarrow> string" where
  "quote_char c =
     (let n = of_char c :: nat in
      if n = 8 then [CHR 0x5C, CHR ''b'']
      else if n = 9 then [CHR 0x5C, CHR ''t'']
      else if n = 10 then [CHR 0x5C, CHR ''n'']
      else if n = 12 then [CHR 0x5C, CHR ''f'']
      else if n = 13 then [CHR 0x5C, CHR ''r'']
      else if n = 34 then [CHR 0x5C, CHR 0x22]
      else if n = 92 then [CHR 0x5C, CHR 0x5C]
      else if n < 32 then [CHR 0x5C, CHR ''u'', CHR ''0'', CHR ''0'', hexdigit (n div 16), hexdigit n]
      else [c])"

definition QuoteJSONString :: "string \<Rightarrow> string" where
  "QuoteJSONString s = [CHR 0x22] @ concat (map quote_char s) @ [CHR 0x22]"

fun join :: "string \<Rightarrow> string list \<Rightarrow> string" where
  "join sep [] = []"
| "join sep [x] = x"
| "join sep (x # y # ys) = x @ sep @ join sep (y # ys)"

section \<open>JSON.stringify\<close>

text \<open>The first error of a list of results, as the first \<open>throw\<close> of a loop.\<close>

fun collect :: "(error + 'a) list \<Rightarrow> error + 'a list" where
  "collect [] = Inr []"
| "collect (Inl e # rs) = Inl e"
| "collect (Inr x # rs) = (case collect rs of Inl e \<Rightarrow> Inl e | Inr xs \<Rightarrow> Inr (x # xs))"

text \<open>The members of an object or the elements of an array whose serialisation is
  defined.\<close>

fun members :: "(string \<times> string option) list \<Rightarrow> string list" where
  "members [] = []"
| "members ((k, None) # ms) = members ms"
| "members ((k, Some s) # ms) = (QuoteJSONString k @ '':'' @ s) # members ms"

definition element :: "string option \<Rightarrow> string" where
  "element so = (case so of None \<Rightarrow> ''null'' | Some s \<Rightarrow> s)"

text \<open>
  \<open>SerializeJSONProperty\<close> of ECMA-262 with an empty gap, on the value already read from
  its holder. The first argument is the PropertyList of the replacer array, if there is
  one: then every object, at every depth, is serialised through the keys of that list,
  in the order of the list, and a key the object does not have is skipped. The result
  \<open>None\<close> is JavaScript's \<open>undefined\<close>.
\<close>

function (sequential) SerializeJSONProperty :: "string list option \<Rightarrow> json \<Rightarrow> error + string option" where
  "SerializeJSONProperty pl JUndefined = Inr None"
| "SerializeJSONProperty pl JNull = Inr (Some ''null'')"
| "SerializeJSONProperty pl (JBool b) = Inr (Some (if b then ''true'' else ''false''))"
| "SerializeJSONProperty pl (JNum n) = Inr (Some (ToString n))"
| "SerializeJSONProperty pl (JBigInt n) = Inl TypeError"
| "SerializeJSONProperty pl (JStr s) = Inr (Some (QuoteJSONString s))"
| "SerializeJSONProperty pl (JArr xs) =
     (case collect (map (SerializeJSONProperty pl) xs) of
        Inl e \<Rightarrow> Inl e
      | Inr ss \<Rightarrow> Inr (Some (''['' @ join '','' (map element ss) @ '']'')))"
| "SerializeJSONProperty pl (JObj kvs) =
     (case collect (map (\<lambda>P. case map_of kvs P of
                                None \<Rightarrow> Inr (P, None)
                              | Some v \<Rightarrow> (case SerializeJSONProperty pl v of
                                            Inl e \<Rightarrow> Inl e
                                          | Inr so \<Rightarrow> Inr (P, so)))
                        (case pl of None \<Rightarrow> map fst kvs | Some K \<Rightarrow> K)) of
        Inl e \<Rightarrow> Inl e
      | Inr ms \<Rightarrow> Inr (Some (''{'' @ join '','' (members ms) @ ''}'')))"
  by pat_completeness auto
termination
proof -
  have m: "map_of kvs k = Some v \<Longrightarrow> size v \<le> size_list (size_prod (\<lambda>_. 0) size) kvs"
    for kvs :: "(string \<times> json) list" and k v
    by (induction kvs) (auto split: if_splits)
  show ?thesis
    by (relation "measure (\<lambda>(pl, v). size v)") (auto simp: m less_Suc_eq_le size_list_estimation')
qed

text \<open>The PropertyList of a replacer array of strings: its elements in order, each
  once.\<close>

fun PropertyList :: "string list \<Rightarrow> string list \<Rightarrow> string list" where
  "PropertyList acc [] = acc"
| "PropertyList acc (k # ks) = (if k \<in> set acc then PropertyList acc ks else PropertyList (acc @ [k]) ks)"

definition JSON_stringify :: "json \<Rightarrow> string list option \<Rightarrow> error + string option" where
  "JSON_stringify v replacer = SerializeJSONProperty (map_option (PropertyList []) replacer) v"

text \<open>\<open>Object.keys\<close>: the own enumerable string keys; the indices of an array; none for a
  primitive.\<close>

fun Object_keys :: "json \<Rightarrow> string list" where
  "Object_keys (JObj kvs) = map fst kvs"
| "Object_keys (JArr xs) = map (\<lambda>i. digits i) [0 ..< length xs]"
| "Object_keys v = []"

section \<open>The fingerprint\<close>

text \<open>
  \<open>stableStringify\<close>, lines 56 to 61. \<open>sort\<close> without a comparator orders strings by
  code units, which is the lexicographic order of \<open>string\<close>. The last line is the
  template literal's rendering of a result that is \<open>undefined\<close>.
\<close>

definition stableStringify :: "json \<Rightarrow> error + string" where
  "stableStringify obj =
     (if obj = JNull \<or> obj = JUndefined then Inr ''''
      else case obj of
        JStr s \<Rightarrow> Inr s
      | _ \<Rightarrow> (case JSON_stringify obj (Some (sort (Object_keys obj))) of
                Inl e \<Rightarrow> Inl e
              | Inr None \<Rightarrow> Inr ''undefined''
              | Inr (Some s) \<Rightarrow> Inr s))"

text \<open>\<open>toUpperCase\<close> on the letters of ASCII, which is where HTTP methods live.\<close>

definition upper_char :: "char \<Rightarrow> char" where
  "upper_char c =
     (case map_of (zip ''abcdefghijklmnopqrstuvwxyz'' ''ABCDEFGHIJKLMNOPQRSTUVWXYZ'') c of
        None \<Rightarrow> c
      | Some u \<Rightarrow> u)"

definition toUpperCase :: "string \<Rightarrow> string" where
  "toUpperCase s = map upper_char s"

text \<open>\<open>trim\<close>: the white space and line terminators of ECMA-262 that fit a code unit
  below 256 (tab, line feed, vertical tab, form feed, carriage return, space, no-break
  space) are removed at both ends.\<close>

definition is_space :: "char \<Rightarrow> bool" where
  "is_space c = (of_char c \<in> {9, 10, 11, 12, 13, 32, 160 :: nat})"

definition trim :: "string \<Rightarrow> string" where
  "trim s = rev (dropWhile is_space (rev (dropWhile is_space s)))"

text \<open>The value of \<open>x || ''\<close> for an operand that is a string or \<open>undefined\<close>.\<close>

definition or_empty :: "string option \<Rightarrow> string" where
  "or_empty so = (case so of None \<Rightarrow> [] | Some s \<Rightarrow> s)"

text \<open>JavaScript's truthiness of a value.\<close>

fun truthy :: "json \<Rightarrow> bool" where
  "truthy JUndefined = False"
| "truthy JNull = False"
| "truthy (JBool b) = b"
| "truthy (JNum n) = (n \<noteq> 0)"
| "truthy (JBigInt n) = (n \<noteq> 0)"
| "truthy (JStr s) = (s \<noteq> [])"
| "truthy (JArr xs) = True"
| "truthy (JObj kvs) = True"

section \<open>Requests, responses and the record store\<close>

text \<open>What the middleware reads of a request: \<open>req.method\<close>, \<open>req.agent\<close> (absent when no
  caller was identified) with its \<open>id\<close> (a string, falsy when empty),
  \<open>req.get('Idempotency-Key')\<close>, \<open>req.baseUrl\<close>, \<open>req.path\<close> and \<open>req.body\<close>.\<close>

record agent =
  ident :: string

record request =
  req_method :: string
  agent :: "agent option"
  idempotency_key :: "string option"
  baseUrl :: "string option"
  path :: "string option"
  body :: json

text \<open>What the middleware sends itself: \<open>res.set\<close>, \<open>res.status\<close>, \<open>res.json\<close>.\<close>

record response =
  status :: int
  headers :: "(string \<times> string) list"
  json_body :: json

text \<open>A row of the table \<open>idempotency_keys\<close>, as the driver hands it back: a column that
  is NULL reads as \<open>None\<close> (as \<open>JNull\<close> for the body).\<close>

record idem_row =
  agent_id :: string
  idem_key :: string
  row_method :: string
  row_route :: string
  request_hash :: "string option"
  status_code :: "int option"
  response_body :: json

text \<open>
  Modelled from the spec: the module \<open>../config/database\<close> and the schema of the table
  are not among the sources. The store is the list of the rows of the table, together
  with the fault, if any, that a lookup or an insert meets: a store error surfaces to
  the caller of \<open>queryOne\<close> or \<open>query\<close> as an exception.
\<close>

record database =
  idempotency_keys :: "idem_row list"
  select_fault :: "error option"
  insert_fault :: "error option"

text \<open>The WHERE clause of line 93 and the conflict target of line 142: the unique
  tuple.\<close>

definition same_tuple :: "string \<Rightarrow> string \<Rightarrow> string \<Rightarrow> string \<Rightarrow> idem_row \<Rightarrow> bool" where
  "same_tuple a k m r row =
     (agent_id row = a \<and> idem_key row = k \<and> row_method row = m \<and> row_route row = r)"

text \<open>
  Modelled from the spec: \<open>queryOne\<close> of \<open>../config/database\<close>, on the SELECT of lines 91
  to 94 (the store's \<open>lookup\<close>): a point lookup by the unique tuple, which returns the
  row, or nothing when there is none, and raises when the store fails.
\<close>

definition queryOne :: "database \<Rightarrow> string \<Rightarrow> string \<Rightarrow> string \<Rightarrow> string \<Rightarrow> error + idem_row option" where
  "queryOne db a k m r =
     (case select_fault db of
        Some e \<Rightarrow> Inl e
      | None \<Rightarrow> Inr (find (same_tuple a k m r) (idempotency_keys db)))"

text \<open>
  Modelled from the spec: \<open>query\<close> of \<open>../config/database\<close>, on the INSERT of lines 139 to
  143 (the store's \<open>insertIfAbsent\<close>): with
  \<open>ON CONFLICT (agent_id, idem_key, method, route) DO NOTHING\<close> a row whose tuple is
  already in the table is not inserted and nothing is raised; otherwise the row is
  added. It raises when the store fails.
\<close>

definition query :: "database \<Rightarrow> idem_row \<Rightarrow> error + database" where
  "query db row =
     (case insert_fault db of
        Some e \<Rightarrow> Inl e
      | None \<Rightarrow>
          (case find (same_tuple (agent_id row) (idem_key row) (row_method row) (row_route row))
                  (idempotency_keys db) of
             Some old \<Rightarrow> Inr db
           | None \<Rightarrow> Inr (db\<lparr>idempotency_keys := idempotency_keys db @ [row]\<rparr>)))"

section \<open>The middleware\<close>

text \<open>What the closure registered on \<open>finish\<close> keeps of the request: \<open>req.agent.id\<close>,
  \<open>key\<close>, \<open>req.method\<close>, \<open>route\<close> and \<open>requestHash\<close>.\<close>

record capture =
  cap_agent_id :: string
  cap_key :: string
  cap_method :: string
  cap_route :: string
  cap_hash :: string

text \<open>How a call of the middleware ends: \<open>next()\<close> with the response untouched,
  \<open>next(err)\<close>, a response sent by the middleware, or \<open>next()\<close> after \<open>res.json\<close> and
  \<open>res.send\<close> were wrapped and the listener on \<open>finish\<close> was registered.\<close>

datatype result =
    Next
  | NextErr error
  | Sent response
  | NextCapturing capture

definition route_of :: "request \<Rightarrow> string" where
  "route_of req = or_empty (baseUrl req) @ or_empty (path req)"

text \<open>Lines 86 to 88. The digest \<open>sha256\<close> of Node's \<open>crypto\<close> module is a parameter.\<close>

definition requestHash :: "(string \<Rightarrow> string) \<Rightarrow> string \<Rightarrow> string \<Rightarrow> json \<Rightarrow> error + string" where
  "requestHash sha256 m route b =
     (case stableStringify b of
        Inl e \<Rightarrow> Inl e
      | Inr s \<Rightarrow> Inr (sha256 (m @ '':'' @ route @ '':'' @ s)))"

definition conflict_response :: response where
  "conflict_response =
     \<lparr>status = 409, headers = [],
      json_body = JObj [(''success'', JBool False),
                        (''error'', JStr ''Idempotency-Key reuse with different request payload'')]\<rparr>"

definition replay_response :: "idem_row \<Rightarrow> response" where
  "replay_response existing =
     \<lparr>status = (case status_code existing of None \<Rightarrow> 200 | Some c \<Rightarrow> if c = 0 then 200 else c),
      headers = [(''Idempotent-Replay'', ''true'')],
      json_body = (if truthy (response_body existing) then response_body existing
                   else JObj [(''success'', JBool True)])\<rparr>"

text \<open>\<open>idempotency\<close>, line 72: the configured methods, in upper case.\<close>

definition idempotency :: "string list option \<Rightarrow> string list" where
  "idempotency opts_methods =
     map toUpperCase (case opts_methods of None \<Rightarrow> [''POST''] | Some ms \<Rightarrow> ms)"

text \<open>\<open>idempotencyMiddleware\<close>, lines 74 to 163, up to the registration of the listener.
  Every exception raised inside the \<open>try\<close> ends in \<open>next(err)\<close>.\<close>

definition idempotencyMiddleware ::
    "(string \<Rightarrow> string) \<Rightarrow> string list \<Rightarrow> database \<Rightarrow> request \<Rightarrow> result" where
  "idempotencyMiddleware sha256 methods db req =
     (if toUpperCase (req_method req) \<notin> set methods then Next
      else case agent req of
        None \<Rightarrow> Next
      | Some ag \<Rightarrow>
          if ident ag = [] then Next
          else let key = trim (or_empty (idempotency_key req)) in
            if key = [] then Next
            else if length key > 200 then Next
            else let route = route_of req in
              (case requestHash sha256 (req_method req) route (body req) of
                 Inl err \<Rightarrow> NextErr err
               | Inr h \<Rightarrow>
                   (case queryOne db (ident ag) key (req_method req) route of
                      Inl err \<Rightarrow> NextErr err
                    | Inr (Some existing) \<Rightarrow>
                        if or_empty (request_hash existing) \<noteq> [] \<and> request_hash existing \<noteq> Some h
                        then Sent conflict_response
                        else Sent (replay_response existing)
                    | Inr None \<Rightarrow>
                        NextCapturing \<lparr>cap_agent_id = ident ag, cap_key = key,
                                       cap_method = req_method req, cap_route = route, cap_hash = h\<rparr>)))"

section \<open>The handler and the listener on finish\<close>

text \<open>What the handler leaves when the response has been sent: \<open>res.statusCode\<close> and the
  argument of its call of \<open>res.json\<close> or \<open>res.send\<close>, which the wrappers put in
  \<open>res.locals.__idemBody\<close> (\<open>JUndefined\<close> if it called neither).\<close>

record reply =
  statusCode :: int
  idemBody :: json

text \<open>The listener, lines 126 to 157, on the store as it is when the response finishes.
  An exception of \<open>JSON.stringify\<close> or of \<open>query\<close> is caught and dropped. A parameter
  that is \<open>undefined\<close> is bound as NULL.\<close>

definition on_finish :: "database \<Rightarrow> capture \<Rightarrow> reply \<Rightarrow> database" where
  "on_finish db cap rep =
     (if statusCode rep < 200 \<or> statusCode rep \<ge> 300 then db
      else case (case idemBody rep of JStr s \<Rightarrow> Inr (Some s) | b \<Rightarrow> JSON_stringify b None) of
        Inl err \<Rightarrow> db
      | Inr responseBodyJson \<Rightarrow>
          (case query db \<lparr>agent_id = cap_agent_id cap, idem_key = cap_key cap,
                          row_method = cap_method cap, row_route = cap_route cap,
                          request_hash = Some (cap_hash cap),
                          status_code = Some (statusCode rep),
                          response_body = (case responseBodyJson of None \<Rightarrow> JNull | Some s \<Rightarrow> JStr s)\<rparr> of
             Inl err \<Rightarrow> db
           | Inr db' \<Rightarrow> db'))"

text \<open>One request through the middleware and the framework: after \<open>next()\<close> the handler
  runs, after \<open>next(err)\<close> the framework's error handling answers and the handler does
  not run, and a response sent by the middleware ends the request.\<close>

datatype outcome =
    Handled reply
  | Answered response
  | Errored error

definition serve ::
    "(string \<Rightarrow> string) \<Rightarrow> string list \<Rightarrow> (request \<Rightarrow> reply) \<Rightarrow> database \<Rightarrow> request \<Rightarrow> outcome \<times> database" where
  "serve sha256 methods handler db req =
     (case idempotencyMiddleware sha256 methods db req of
        Next \<Rightarrow> (Handled (handler req), db)
      | NextErr err \<Rightarrow> (Errored err, db)
      | Sent r \<Rightarrow> (Answered r, db)
      | NextCapturing cap \<Rightarrow> (let rep = handler req in (Handled rep, on_finish db cap rep)))"

section \<open>Predicates and example data\<close>

text \<open>The unique tuple of a row.\<close>

definition tuple_of :: "idem_row \<Rightarrow> string \<times> string \<times> string \<times> string" where
  "tuple_of row = (agent_id row, idem_key row, row_method row, row_route row)"

text \<open>A value that holds no BigInt at any depth. Among the values of \<open>json\<close> these are
  the ones \<open>JSON.stringify\<close> accepts whatever the replacer; a circular structure, the
  other value it refuses, is not a value of \<open>json\<close>.\<close>

fun serializable :: "json \<Rightarrow> bool" where
  "serializable JUndefined = True"
| "serializable JNull = True"
| "serializable (JBool b) = True"
| "serializable (JNum n) = True"
| "serializable (JBigInt n) = False"
| "serializable (JStr s) = True"
| "serializable (JArr xs) = (\<forall>x \<in> set xs. serializable x)"
| "serializable (JObj kvs) = (\<forall>kv \<in> set kvs. serializable (snd kv))"

text \<open>Two values that differ at most in the order of the keys of their objects, at
  any depth: arrays element by element, objects (with distinct keys) key by key, every
  other value only with itself.\<close>

fun reordered :: "json \<Rightarrow> json \<Rightarrow> bool" where
  "reordered (JArr xs) (JArr ys) = list_all2 reordered xs ys"
| "reordered (JObj kvs) (JObj kvs') =
     (distinct (map fst kvs) \<and> distinct (map fst kvs') \<and> set (map fst kvs) = set (map fst kvs')
      \<and> (\<forall>kv \<in> set kvs. case map_of kvs' (fst kv) of
                              None \<Rightarrow> False
                            | Some v' \<Rightarrow> reordered (snd kv) v'))"
| "reordered v w = (v = w)"

text \<open>Example data for the concrete runs below: a digest without collisions (the
  identity), a handler that answers 201 through \<open>res.send('created')\<close>, one that answers
  500, a POST to \<open>/orders/\<close> by the caller \<open>agent-1\<close>, and stores.\<close>

definition plain_digest :: "string \<Rightarrow> string" where
  "plain_digest s = s"

definition created :: "request \<Rightarrow> reply" where
  "created req = \<lparr>statusCode = 201, idemBody = JStr ''created''\<rparr>"

definition failing :: "request \<Rightarrow> reply" where
  "failing req = \<lparr>statusCode = 500, idemBody = JObj [(''success'', JBool False)]\<rparr>"

definition order_request :: "string option \<Rightarrow> json \<Rightarrow> request" where
  "order_request k b =
     \<lparr>req_method = ''POST'', agent = Some \<lparr>ident = ''agent-1''\<rparr>, idempotency_key = k,
      baseUrl = Some ''/orders'', path = Some ''/'', body = b\<rparr>"

definition item :: "string \<Rightarrow> json" where
  "item x = JObj [(''item'', JStr x)]"

definition nested :: "string \<Rightarrow> json" where
  "nested x = JObj [(''item'', JObj [(''sku'', JStr x)])]"

definition order_hash :: "json \<Rightarrow> string option" where
  "order_hash b = (case requestHash plain_digest ''POST'' ''/orders/'' b of
                     Inl e \<Rightarrow> None
                   | Inr h \<Rightarrow> Some h)"

definition order_row :: "string option \<Rightarrow> int option \<Rightarrow> json \<Rightarrow> idem_row" where
  "order_row h c b =
     \<lparr>agent_id = ''agent-1'', idem_key = ''abc'', row_method = ''POST'', row_route = ''/orders/'',
      request_hash = h, status_code = c, response_body = b\<rparr>"

definition store_of :: "idem_row list \<Rightarrow> database" where
  "store_of rows = \<lparr>idempotency_keys = rows, select_fault = None, insert_fault = None\<rparr>"

definition empty_store :: database where
  "empty_store = store_of []"

definition broken_store :: database where
  "broken_store = \<lparr>idempotency_keys = [], select_fault = Some (StoreError ''connection refused''),
                    insert_fault = None\<rparr>"

section \<open>Evaluation and shared lemmas\<close>

lemma idempotency_default: "idempotency None = [''POST'']"
  by (simp add: idempotency_def toUpperCase_def upper_char_def)

lemmas eval_defs =
  serve_def idempotencyMiddleware_def idempotency_default order_request_def
  toUpperCase_def upper_char_def or_empty_def trim_def is_space_def Let_def route_of_def
  requestHash_def stableStringify_def JSON_stringify_def queryOne_def query_def on_finish_def
  same_tuple_def replay_response_def conflict_response_def
  order_hash_def order_row_def store_of_def item_def nested_def plain_digest_def created_def
  failing_def empty_store_def broken_store_def tuple_of_def
  QuoteJSONString_def quote_char_def ToString_def digit_def

lemma find_SomeD: "find P xs = Some x \<Longrightarrow> x \<in> set xs \<and> P x"
  by (induction xs) (auto split: if_splits)

text \<open>The middleware on a request that is not bypassed and whose fingerprint is
  defined: the lookup decides.\<close>

lemma covered_lookup:
  assumes "toUpperCase (req_method req) \<in> set methods"
    and "agent req = Some ag" and "ident ag \<noteq> []"
    and "trim (or_empty (idempotency_key req)) \<noteq> []"
    and "length (trim (or_empty (idempotency_key req))) \<le> 200"
    and "requestHash sha256 (req_method req) (route_of req) (body req) = Inr h"
  shows "idempotencyMiddleware sha256 methods db req =
     (case queryOne db (ident ag) (trim (or_empty (idempotency_key req))) (req_method req) (route_of req) of
        Inl err \<Rightarrow> NextErr err
      | Inr (Some existing) \<Rightarrow>
          if or_empty (request_hash existing) \<noteq> [] \<and> request_hash existing \<noteq> Some h
          then Sent conflict_response
          else Sent (replay_response existing)
      | Inr None \<Rightarrow>
          NextCapturing \<lparr>cap_agent_id = ident ag, cap_key = trim (or_empty (idempotency_key req)),
                         cap_method = req_method req, cap_route = route_of req, cap_hash = h\<rparr>)"
  using assms by (simp add: idempotencyMiddleware_def Let_def)

text \<open>The middleware reads the header only through the trimmed key.\<close>

lemma middleware_by_key:
  "idempotencyMiddleware sha256 methods db (req\<lparr>idempotency_key := k\<rparr>) =
     (if toUpperCase (req_method req) \<notin> set methods then Next
      else case agent req of
        None \<Rightarrow> Next
      | Some ag \<Rightarrow>
          if ident ag = [] then Next
          else if trim (or_empty k) = [] then Next
          else if length (trim (or_empty k)) > 200 then Next
          else (case requestHash sha256 (req_method req) (route_of req) (body req) of
                 Inl err \<Rightarrow> NextErr err
               | Inr h \<Rightarrow>
                   (case queryOne db (ident ag) (trim (or_empty k)) (req_method req) (route_of req) of
                      Inl err \<Rightarrow> NextErr err
                    | Inr (Some existing) \<Rightarrow>
                        if or_empty (request_hash existing) \<noteq> [] \<and> request_hash existing \<noteq> Some h
                        then Sent conflict_response
                        else Sent (replay_response existing)
                    | Inr None \<Rightarrow>
                        NextCapturing \<lparr>cap_agent_id = ident ag, cap_key = trim (or_empty k),
                                       cap_method = req_method req, cap_route = route_of req, cap_hash = h\<rparr>)))"
  by (simp add: idempotencyMiddleware_def route_of_def Let_def
      cong: option.case_cong sum.case_cong if_cong)

subsection \<open>The store\<close>

lemma find_tuple_None:
  "find (same_tuple a k m r) rows = None \<longleftrightarrow> (a, k, m, r) \<notin> tuple_of ` set rows"
  by (induction rows) (auto simp: same_tuple_def tuple_of_def)

lemma query_rows:
  "query db row = Inr db' \<Longrightarrow>
     (db' = db \<and> tuple_of row \<in> tuple_of ` set (idempotency_keys db))
     \<or> (db' = db\<lparr>idempotency_keys := idempotency_keys db @ [row]\<rparr>
         \<and> tuple_of row \<notin> tuple_of ` set (idempotency_keys db))"
  using find_tuple_None [of "agent_id row" "idem_key row" "row_method row" "row_route row" "idempotency_keys db"]
  by (auto simp: query_def tuple_of_def split: option.splits)

text \<open>The listener leaves the store as it is or appends one row, with a status from 200
  to 299 and a tuple the store did not hold.\<close>

lemma on_finish_cases:
  "on_finish db cap rep = db
   \<or> (\<exists>b. 200 \<le> statusCode rep \<and> statusCode rep < 300
         \<and> (cap_agent_id cap, cap_key cap, cap_method cap, cap_route cap) \<notin> tuple_of ` set (idempotency_keys db)
         \<and> on_finish db cap rep =
             db\<lparr>idempotency_keys := idempotency_keys db @
                 [\<lparr>agent_id = cap_agent_id cap, idem_key = cap_key cap,
                   row_method = cap_method cap, row_route = cap_route cap,
                   request_hash = Some (cap_hash cap), status_code = Some (statusCode rep),
                   response_body = b\<rparr>]\<rparr>)"
proof -
  let ?row = "\<lambda>b. \<lparr>agent_id = cap_agent_id cap, idem_key = cap_key cap,
                   row_method = cap_method cap, row_route = cap_route cap,
                   request_hash = Some (cap_hash cap), status_code = Some (statusCode rep),
                   response_body = b\<rparr>"
  have commit: "(case query db (?row b) of Inl err \<Rightarrow> db | Inr db' \<Rightarrow> db') = db
        \<or> ((cap_agent_id cap, cap_key cap, cap_method cap, cap_route cap) \<notin> tuple_of ` set (idempotency_keys db)
            \<and> (case query db (?row b) of Inl err \<Rightarrow> db | Inr db' \<Rightarrow> db')
                = db\<lparr>idempotency_keys := idempotency_keys db @ [?row b]\<rparr>)" for b
  proof (cases "query db (?row b)")
    case (Inl err)
    then show ?thesis by simp
  next
    case (Inr db')
    from query_rows [OF this] show ?thesis
      by (auto simp: Inr tuple_of_def)
  qed
  show ?thesis
  proof (cases "statusCode rep < 200 \<or> statusCode rep \<ge> 300")
    case True
    then show ?thesis by (simp add: on_finish_def)
  next
    case False
    show ?thesis
    proof (cases "case idemBody rep of JStr s \<Rightarrow> Inr (Some s) | b \<Rightarrow> JSON_stringify b None")
      case (Inl err)
      then show ?thesis using False by (simp add: on_finish_def)
    next
      case (Inr responseBodyJson)
      then have "on_finish db cap rep =
          (case query db (?row (case responseBodyJson of None \<Rightarrow> JNull | Some s \<Rightarrow> JStr s)) of
             Inl err \<Rightarrow> db | Inr db' \<Rightarrow> db')"
        using False by (simp add: on_finish_def)
      with commit [of "case responseBodyJson of None \<Rightarrow> JNull | Some s \<Rightarrow> JStr s"] False
      show ?thesis by auto
    qed
  qed
qed

lemma serve_store:
  "snd (serve sha256 methods handler db req) = db
   \<or> (\<exists>cap. idempotencyMiddleware sha256 methods db req = NextCapturing cap
         \<and> snd (serve sha256 methods handler db req) = on_finish db cap (handler req))"
  by (auto simp: serve_def Let_def split: result.splits)

subsection \<open>Serialisation\<close>

lemma collect_defined:
  "(\<And>x. x \<in> set xs \<Longrightarrow> \<exists>y. f x = Inr y) \<Longrightarrow> \<exists>ys. collect (map f xs) = Inr ys"
proof (induction xs)
  case Nil
  show ?case by simp
next
  case (Cons x xs)
  obtain y where "f x = Inr y" using Cons.prems by auto
  moreover obtain ys where "collect (map f xs) = Inr ys" using Cons by auto
  ultimately show ?case by simp
qed

lemma serialize_defined:
  "serializable v \<Longrightarrow> \<exists>so. SerializeJSONProperty pl v = Inr so"
proof (induction v)
  case (JArr xs)
  have "\<exists>ss. collect (map (SerializeJSONProperty pl) xs) = Inr ss"
    using JArr by (intro collect_defined) auto
  then show ?case by auto
next
  case (JObj kvs)
  let ?f = "\<lambda>P. case map_of kvs P of
                  None \<Rightarrow> Inr (P, None)
                | Some v \<Rightarrow> (case SerializeJSONProperty pl v of
                              Inl e \<Rightarrow> Inl e
                            | Inr so \<Rightarrow> Inr (P, so))"
  have one: "\<exists>y. ?f P = Inr y" for P
  proof (cases "map_of kvs P")
    case None
    then show ?thesis by simp
  next
    case (Some v)
    then have "(P, v) \<in> set kvs" by (rule map_of_SomeD)
    then obtain so where "SerializeJSONProperty pl v = Inr so"
      using JObj by fastforce
    then show ?thesis using Some by simp
  qed
  have "\<exists>ms. collect (map ?f K) = Inr ms" for K
    using one by (intro collect_defined) auto
  then obtain ms where "collect (map ?f (case pl of None \<Rightarrow> map fst kvs | Some K \<Rightarrow> K)) = Inr ms"
    by blast
  then show ?case by simp
qed simp_all

lemma stableStringify_defined:
  "serializable b \<Longrightarrow> \<exists>s. stableStringify b = Inr s"
  using serialize_defined [of b "Some (PropertyList [] (sort (Object_keys b)))"]
  by (auto simp: stableStringify_def JSON_stringify_def split: json.splits option.splits)

subsection \<open>Trimming\<close>

lemma dropWhile_all: "list_all P xs \<Longrightarrow> dropWhile P (xs @ ys) = dropWhile P ys"
  by (induction xs) auto

lemma dropWhile_blank: "list_all P xs \<Longrightarrow> dropWhile P xs = []"
  by (induction xs) auto

lemma trim_blank: "list_all is_space h \<Longrightarrow> trim h = []"
  by (simp add: trim_def dropWhile_blank del: dropWhile_eq_Nil_conv)

lemma trim_padding:
  assumes "list_all is_space pre" and "list_all is_space post"
  shows "trim (pre @ k @ post) = trim k"
proof -
  have "dropWhile is_space (pre @ k @ post) = dropWhile is_space (k @ post)"
    using assms(1) by (rule dropWhile_all)
  then have front: "trim (pre @ k @ post) = trim (k @ post)"
    by (simp only: trim_def)
  have tl: "list_all is_space (rev post)"
    using assms(2) by (simp add: list_all_iff)
  have "trim (k @ post) = trim k"
  proof (cases "list_all is_space k")
    case True
    then have "list_all is_space (k @ post)"
      using assms(2) by simp
    then have "trim (k @ post) = []"
      by (rule trim_blank)
    moreover have "trim k = []"
      using True by (rule trim_blank)
    ultimately show ?thesis
      by (simp only:)
  next
    case False
    then have "\<exists>x \<in> set k. \<not> is_space x"
      by (simp add: list_all_iff)
    then obtain x where "x \<in> set k" "\<not> is_space x"
      by blast
    then have "dropWhile is_space (k @ post) = dropWhile is_space k @ post"
      by (rule dropWhile_append1)
    then have "rev (dropWhile is_space (k @ post)) = rev post @ rev (dropWhile is_space k)"
      by (simp only: rev_append)
    then have "dropWhile is_space (rev (dropWhile is_space (k @ post)))
        = dropWhile is_space (rev (dropWhile is_space k))"
      using dropWhile_all [OF tl] by (simp only:)
    then show ?thesis
      by (simp only: trim_def)
  qed
  with front show ?thesis
    by (simp only:)
qed

subsection \<open>Key order\<close>

lemma sort_keys_mset:
  assumes "mset kvs' = mset kvs"
  shows "sort (map fst kvs') = sort (map fst (kvs :: (string \<times> json) list))"
proof -
  have "mset (map fst kvs') = mset (map fst kvs)"
    using assms by (metis mset_map)
  then show ?thesis
    by (intro properties_for_sort) simp_all
qed

lemma map_of_mset:
  assumes "distinct (map fst kvs)" and "mset kvs' = mset kvs"
  shows "map_of kvs' = map_of (kvs :: (string \<times> json) list)"
proof -
  have "mset (map fst kvs') = mset (map fst kvs)"
    using assms(2) by (metis mset_map)
  then have "distinct (map fst kvs')"
    using assms(1) by (metis mset_eq_imp_distinct_iff)
  moreover have "set kvs' = set kvs"
    using assms(2) by (rule mset_eq_setD)
  ultimately show ?thesis
    using assms(1) by (simp add: map_of_inject_set)
qed

lemma stableStringify_JObj:
  "stableStringify (JObj kvs) =
     (case SerializeJSONProperty (Some (PropertyList [] (sort (map fst kvs)))) (JObj kvs) of
        Inl e \<Rightarrow> Inl e
      | Inr None \<Rightarrow> Inr ''undefined''
      | Inr (Some s) \<Rightarrow> Inr s)"
  by (simp add: stableStringify_def JSON_stringify_def)

lemma map_eq_list_all2:
  "list_all2 (\<lambda>x y. f x = f y) xs ys \<Longrightarrow> map f xs = map f ys"
  by (induction rule: list_all2_induct) auto

lemma reordered_serialize:
  "reordered v w \<Longrightarrow> SerializeJSONProperty (Some K) v = SerializeJSONProperty (Some K) w"
proof (induction v w rule: reordered.induct)
  case (1 xs ys)
  from "1.prems" have "list_all2 reordered xs ys" by simp
  then have "list_all2 (\<lambda>x y. SerializeJSONProperty (Some K) x = SerializeJSONProperty (Some K) y) xs ys"
    by (rule list.rel_mono_strong) (rule "1.IH")
  then have "map (SerializeJSONProperty (Some K)) xs = map (SerializeJSONProperty (Some K)) ys"
    by (rule map_eq_list_all2)
  then show ?case by simp
next
  case (2 kvs kvs')
  from "2.prems" have keys: "fst ` set kvs = fst ` set kvs'"
    and dist: "distinct (map fst kvs)"
    and vals: "\<And>kv. kv \<in> set kvs \<Longrightarrow>
                 (case map_of kvs' (fst kv) of None \<Rightarrow> False | Some v' \<Rightarrow> reordered (snd kv) v')"
    by auto
  have "(case map_of kvs P of
            None \<Rightarrow> Inr (P, None)
          | Some v \<Rightarrow> (case SerializeJSONProperty (Some K) v of Inl e \<Rightarrow> Inl e | Inr so \<Rightarrow> Inr (P, so)))
      = (case map_of kvs' P of
            None \<Rightarrow> Inr (P, None)
          | Some v \<Rightarrow> (case SerializeJSONProperty (Some K) v of Inl e \<Rightarrow> Inl e | Inr so \<Rightarrow> Inr (P, so)))"
    for P
  proof (cases "map_of kvs P")
    case None
    then have "P \<notin> fst ` set kvs'"
      using keys by (simp add: map_of_eq_None_iff)
    then have "map_of kvs' P = None"
      by (simp add: map_of_eq_None_iff)
    with None show ?thesis by simp
  next
    case (Some v)
    then have mem: "(P, v) \<in> set kvs" by (rule map_of_SomeD)
    from vals [OF mem] obtain v' where v': "map_of kvs' P = Some v'" "reordered v v'"
      by (auto split: option.splits)
    have "SerializeJSONProperty (Some K) v = SerializeJSONProperty (Some K) v'"
      using "2.IH" [OF mem] v' by simp
    with Some v' show ?thesis by simp
  qed
  then show ?case by simp
qed simp_all

lemma reordered_keys:
  "reordered v w \<Longrightarrow> sort (Object_keys v) = sort (Object_keys w)"
proof (induction v w rule: reordered.induct)
  case (1 xs ys)
  then show ?case by (auto dest: list_all2_lengthD)
next
  case (2 kvs kvs')
  then have "mset (map fst kvs) = mset (map fst kvs')"
    using set_eq_iff_mset_eq_distinct [of "map fst kvs" "map fst kvs'"] by auto
  then have "sort (map fst kvs) = sort (map fst kvs')"
    by (intro properties_for_sort) simp_all
  then show ?case by simp
qed simp_all

lemma reordered_stableStringify:
  assumes "reordered v w"
  shows "stableStringify v = stableStringify w"
proof -
  have "JSON_stringify v (Some (sort (Object_keys v))) = JSON_stringify w (Some (sort (Object_keys w)))"
    using reordered_keys [OF assms] reordered_serialize [OF assms]
    by (simp add: JSON_stringify_def)
  then show ?thesis
    using assms by (cases v; cases w) (simp_all add: stableStringify_def)
qed

section \<open>The claims\<close>

subsection \<open>C1: different payloads and the fingerprint\<close>

text \<open>
  C1 says that two bodies that differ in content never have the same fingerprint, so
  that a request with a different payload is never answered as a replay. The code
  passes the sorted keys of the body as the replacer array of \<open>JSON.stringify\<close>, and a
  replacer array selects properties at every depth: a nested property whose key is not
  a top-level key is dropped. The orders \<open>{item: {sku: 'x'}}\<close> and \<open>{item: {sku: 'y'}}\<close>
  differ in content, not in the order of keys, and have the same fingerprint, whatever
  the digest; the second, sent with the key of the first, is answered with the stored
  response of the first.
\<close>

theorem nested_payloads_collide:
  "\<not> reordered (nested ''x'') (nested ''y'')
   \<and> stableStringify (nested ''x'') = stableStringify (nested ''y'')
   \<and> requestHash sha256 m r (nested ''x'') = requestHash sha256 m r (nested ''y'')
   \<and> serve plain_digest (idempotency None) created
        (snd (serve plain_digest (idempotency None) created empty_store
                (order_request (Some ''abc'') (nested ''x''))))
        (order_request (Some ''abc'') (nested ''y''))
      = (Answered \<lparr>status = 201, headers = [(''Idempotent-Replay'', ''true'')],
                    json_body = JStr ''created''\<rparr>,
         store_of [order_row (order_hash (nested ''x'')) (Some 201) (JStr ''created'')])"
  by (simp add: eval_defs)

subsection \<open>C2: a store error during the lookup\<close>

text \<open>
  C2, as the code has it: when the lookup of a request that is not bypassed raises a
  store error, the \<open>catch\<close> of the middleware passes that error to \<open>next(err)\<close>. The
  request goes to the framework's error handling with the error of the store, the
  handler is not run and the store is left as it was.
\<close>

theorem lookup_failure_reaches_next_err:
  assumes "toUpperCase (req_method req) \<in> set methods"
    and "agent req = Some ag" and "ident ag \<noteq> []"
    and "trim (or_empty (idempotency_key req)) \<noteq> []"
    and "length (trim (or_empty (idempotency_key req))) \<le> 200"
    and "requestHash sha256 (req_method req) (route_of req) (body req) = Inr h"
    and "select_fault db = Some err"
  shows "idempotencyMiddleware sha256 methods db req = NextErr err
         \<and> serve sha256 methods handler db req = (Errored err, db)"
  using assms by (simp add: covered_lookup serve_def queryOne_def)

theorem lookup_failure_reaches_next_err_witness:
  "select_fault broken_store = Some (StoreError ''connection refused'')
   \<and> idempotencyMiddleware plain_digest (idempotency None) broken_store
        (order_request (Some ''abc'') (item ''x''))
      = NextErr (StoreError ''connection refused'')"
  using lookup_failure_reaches_next_err
    [of "order_request (Some ''abc'') (item ''x'')" "idempotency None" "\<lparr>ident = ''agent-1''\<rparr>"
        plain_digest
        "''POST:/orders/:{'' @ QuoteJSONString ''item'' @ '':'' @ QuoteJSONString ''x'' @ ''}''"
        broken_store "StoreError ''connection refused''" created]
  by (simp add: eval_defs)

text \<open>
  C2 as stated fails: with a store whose lookup raises, a POST with the key \<open>abc\<close> does
  not reach the handler, which would have answered 201; the request ends with the
  error of the store.
\<close>

theorem lookup_failure_fails_the_request:
  "serve plain_digest (idempotency None) created broken_store
     (order_request (Some ''abc'') (item ''x''))
   = (Errored (StoreError ''connection refused''), broken_store)
   \<and> serve plain_digest (idempotency None) created broken_store
       (order_request None (item ''x''))
     = (Handled \<lparr>statusCode = 201, idemBody = JStr ''created''\<rparr>, broken_store)"
  by (simp add: eval_defs)

subsection \<open>C3: replay\<close>

text \<open>
  C3, as the code has it: for a request that is not bypassed, when the lookup finds a
  row whose \<open>request_hash\<close> is the fingerprint of the request, the middleware answers
  with the stored status code (200 if the stored code is NULL or 0) and the stored body
  (the body \<open>{success: true}\<close> if the stored body is NULL or another falsy value), with
  the header \<open>Idempotent-Replay: true\<close>; the handler is not run and the store is left as
  it was. The middleware sets a header on no response but one built from a row of the
  store.
\<close>

theorem replay_of_stored_record:
  assumes "toUpperCase (req_method req) \<in> set methods"
    and "agent req = Some ag" and "ident ag \<noteq> []"
    and "trim (or_empty (idempotency_key req)) \<noteq> []"
    and "length (trim (or_empty (idempotency_key req))) \<le> 200"
    and "requestHash sha256 (req_method req) (route_of req) (body req) = Inr h"
    and "queryOne db (ident ag) (trim (or_empty (idempotency_key req))) (req_method req) (route_of req)
           = Inr (Some existing)"
    and "request_hash existing = Some h"
  shows "serve sha256 methods handler db req =
           (Answered \<lparr>status = (case status_code existing of
                                   None \<Rightarrow> 200
                                 | Some c \<Rightarrow> if c = 0 then 200 else c),
                       headers = [(''Idempotent-Replay'', ''true'')],
                       json_body = (if truthy (response_body existing) then response_body existing
                                    else JObj [(''success'', JBool True)])\<rparr>, db)
         \<and> (idempotencyMiddleware sha256 methods' db' req' = Sent r \<and> headers r \<noteq> []
              \<longrightarrow> (\<exists>row \<in> set (idempotency_keys db'). r = replay_response row))"
proof -
  have "idempotencyMiddleware sha256 methods db req = Sent (replay_response existing)"
    using assms by (simp add: covered_lookup)
  moreover have "\<exists>row \<in> set (idempotency_keys db'). r = replay_response row"
    if "idempotencyMiddleware sha256 methods' db' req' = Sent r" "headers r \<noteq> []"
    using that
    by (auto simp: idempotencyMiddleware_def Let_def queryOne_def conflict_response_def
        split: if_splits option.splits sum.splits dest: find_SomeD)
  ultimately show ?thesis
    by (auto simp: serve_def replay_response_def)
qed

theorem replay_of_stored_record_witness:
  "serve plain_digest (idempotency None) created
     (store_of [order_row (order_hash (item ''x'')) (Some 201) (JStr ''created'')])
     (order_request (Some ''abc'') (item ''x''))
   = (Answered \<lparr>status = 201, headers = [(''Idempotent-Replay'', ''true'')],
                 json_body = JStr ''created''\<rparr>,
      store_of [order_row (order_hash (item ''x'')) (Some 201) (JStr ''created'')])"
  using replay_of_stored_record
    [of "order_request (Some ''abc'') (item ''x'')" "idempotency None" "\<lparr>ident = ''agent-1''\<rparr>"
        plain_digest
        "''POST:/orders/:{'' @ QuoteJSONString ''item'' @ '':'' @ QuoteJSONString ''x'' @ ''}''"
        "store_of [order_row (order_hash (item ''x'')) (Some 201) (JStr ''created'')]"
        "order_row (order_hash (item ''x'')) (Some 201) (JStr ''created'')"
        created "idempotency None"
        "store_of [order_row (order_hash (item ''x'')) (Some 201) (JStr ''created'')]"
        "order_request (Some ''abc'') (item ''x'')"
        "\<lparr>status = 201, headers = [(''Idempotent-Replay'', ''true'')], json_body = JStr ''created''\<rparr>"]
  by (simp add: eval_defs)

text \<open>
  C3 as stated fails: the stored body is not always answered verbatim. Against a row
  with status 204 and a body that is NULL, the replay carries the body
  \<open>{success: true}\<close>.
\<close>

theorem replay_falls_back_on_empty_body:
  "response_body (order_row (order_hash (item ''x'')) (Some 204) JNull) = JNull
   \<and> serve plain_digest (idempotency None) created
        (store_of [order_row (order_hash (item ''x'')) (Some 204) JNull])
        (order_request (Some ''abc'') (item ''x''))
      = (Answered \<lparr>status = 204, headers = [(''Idempotent-Replay'', ''true'')],
                    json_body = JObj [(''success'', JBool True)]\<rparr>,
         store_of [order_row (order_hash (item ''x'')) (Some 204) JNull])"
  by (simp add: eval_defs)

subsection \<open>C4: conflict\<close>

text \<open>
  C4, as the code has it: for a request that is not bypassed, when the lookup finds a
  row whose \<open>request_hash\<close> is present (neither NULL nor empty) and differs from the
  fingerprint of the request, the middleware answers 409 with the body
  \<open>{success: false, error: 'Idempotency-Key reuse with different request payload'}\<close>;
  the handler is not run and the store is left as it was.
\<close>

theorem conflict_on_different_payload:
  assumes "toUpperCase (req_method req) \<in> set methods"
    and "agent req = Some ag" and "ident ag \<noteq> []"
    and "trim (or_empty (idempotency_key req)) \<noteq> []"
    and "length (trim (or_empty (idempotency_key req))) \<le> 200"
    and "requestHash sha256 (req_method req) (route_of req) (body req) = Inr h"
    and "queryOne db (ident ag) (trim (or_empty (idempotency_key req))) (req_method req) (route_of req)
           = Inr (Some existing)"
    and "request_hash existing = Some h'" and "h' \<noteq> []" and "h' \<noteq> h"
  shows "serve sha256 methods handler db req =
           (Answered \<lparr>status = 409, headers = [],
                       json_body = JObj [(''success'', JBool False),
                                         (''error'', JStr ''Idempotency-Key reuse with different request payload'')]\<rparr>,
            db)"
  using assms by (simp add: serve_def covered_lookup conflict_response_def or_empty_def)

theorem conflict_on_different_payload_witness:
  "serve plain_digest (idempotency None) created
     (store_of [order_row (order_hash (item ''x'')) (Some 201) (JStr ''created'')])
     (order_request (Some ''abc'') (item ''y''))
   = (Answered \<lparr>status = 409, headers = [],
                 json_body = JObj [(''success'', JBool False),
                                   (''error'', JStr ''Idempotency-Key reuse with different request payload'')]\<rparr>,
      store_of [order_row (order_hash (item ''x'')) (Some 201) (JStr ''created'')])"
  using conflict_on_different_payload
    [of "order_request (Some ''abc'') (item ''y'')" "idempotency None" "\<lparr>ident = ''agent-1''\<rparr>"
        plain_digest
        "''POST:/orders/:{'' @ QuoteJSONString ''item'' @ '':'' @ QuoteJSONString ''y'' @ ''}''"
        "store_of [order_row (order_hash (item ''x'')) (Some 201) (JStr ''created'')]"
        "order_row (order_hash (item ''x'')) (Some 201) (JStr ''created'')"
        "''POST:/orders/:{'' @ QuoteJSONString ''item'' @ '':'' @ QuoteJSONString ''x'' @ ''}''"
        created]
  by (simp add: eval_defs)

text \<open>
  C4 as stated fails: a row whose \<open>request_hash\<close> is NULL differs from every fingerprint,
  and the guard of line 99 sends the request to the replay.
\<close>

theorem null_hash_is_replayed:
  "request_hash (order_row None (Some 201) (JStr ''created'')) \<noteq> order_hash (item ''y'')
   \<and> serve plain_digest (idempotency None) created
        (store_of [order_row None (Some 201) (JStr ''created'')])
        (order_request (Some ''abc'') (item ''y''))
      = (Answered \<lparr>status = 201, headers = [(''Idempotent-Replay'', ''true'')],
                    json_body = JStr ''created''\<rparr>,
         store_of [order_row None (Some 201) (JStr ''created'')])"
  by (simp add: eval_defs)

subsection \<open>C5: only successful responses are stored\<close>

text \<open>
  C5: a row that the listener or a whole request adds to the store has a status code
  from 200 to 299. When the handler ends with another status the store is left as it
  was, so a request that found no row and ran the handler finds no row when it is sent
  again, and runs the handler again.
\<close>

theorem only_2xx_persisted:
  "(row \<in> set (idempotency_keys (on_finish db cap rep)) \<longrightarrow>
      row \<in> set (idempotency_keys db) \<or> (\<exists>c. status_code row = Some c \<and> 200 \<le> c \<and> c < 300))
   \<and> (row \<in> set (idempotency_keys (snd (serve sha256 methods handler db req))) \<longrightarrow>
      row \<in> set (idempotency_keys db) \<or> (\<exists>c. status_code row = Some c \<and> 200 \<le> c \<and> c < 300))
   \<and> (statusCode (handler req) < 200 \<or> 300 \<le> statusCode (handler req) \<longrightarrow>
      snd (serve sha256 methods handler db req) = db)
   \<and> (idempotencyMiddleware sha256 methods db req = NextCapturing cap'
        \<and> (statusCode (handler req) < 200 \<or> 300 \<le> statusCode (handler req)) \<longrightarrow>
      serve sha256 methods handler db req = (Handled (handler req), db)
      \<and> serve sha256 methods handler (snd (serve sha256 methods handler db req)) req
          = (Handled (handler req), db))"
proof -
  have fin: "row \<in> set (idempotency_keys db) \<or> (\<exists>c. status_code row = Some c \<and> 200 \<le> c \<and> c < 300)"
    if "row \<in> set (idempotency_keys (on_finish db cap rep))" for cap rep
    using on_finish_cases [of db cap rep] that by auto
  have srv: "row \<in> set (idempotency_keys db) \<or> (\<exists>c. status_code row = Some c \<and> 200 \<le> c \<and> c < 300)"
    if "row \<in> set (idempotency_keys (snd (serve sha256 methods handler db req)))"
    using serve_store [of sha256 methods handler db req] that fin by auto
  have non: "on_finish db cap (handler req) = db"
    if "statusCode (handler req) < 200 \<or> 300 \<le> statusCode (handler req)" for cap
    using that by (auto simp: on_finish_def)
  have keep: "snd (serve sha256 methods handler db req) = db"
    if "statusCode (handler req) < 200 \<or> 300 \<le> statusCode (handler req)"
    using serve_store [of sha256 methods handler db req] non [OF that] by auto
  have again: "serve sha256 methods handler db req = (Handled (handler req), db)"
    if "idempotencyMiddleware sha256 methods db req = NextCapturing cap'"
      "statusCode (handler req) < 200 \<or> 300 \<le> statusCode (handler req)"
    using that non [OF that(2)] by (simp add: serve_def Let_def)
  show ?thesis
    using fin srv keep again by auto
qed

theorem only_2xx_persisted_witness:
  "order_row (order_hash (item ''x'')) (Some 201) (JStr ''created'')
     \<in> set (idempotency_keys (snd (serve plain_digest (idempotency None) created empty_store
                                     (order_request (Some ''abc'') (item ''x'')))))
   \<and> (\<exists>c. status_code (order_row (order_hash (item ''x'')) (Some 201) (JStr ''created'')) = Some c
          \<and> 200 \<le> c \<and> c < 300)
   \<and> serve plain_digest (idempotency None) failing empty_store (order_request (Some ''abc'') (item ''x''))
     = (Handled (failing (order_request (Some ''abc'') (item ''x''))), empty_store)
   \<and> serve plain_digest (idempotency None) failing
        (snd (serve plain_digest (idempotency None) failing empty_store (order_request (Some ''abc'') (item ''x''))))
        (order_request (Some ''abc'') (item ''x''))
     = (Handled (failing (order_request (Some ''abc'') (item ''x''))), empty_store)"
  using only_2xx_persisted
    [of "order_row (order_hash (item ''x'')) (Some 201) (JStr ''created'')" empty_store
        _ _ plain_digest "idempotency None" created "order_request (Some ''abc'') (item ''x'')"]
    only_2xx_persisted
    [of _ empty_store _ _ plain_digest "idempotency None" failing
        "order_request (Some ''abc'') (item ''x'')"
        "\<lparr>cap_agent_id = ''agent-1'', cap_key = ''abc'', cap_method = ''POST'', cap_route = ''/orders/'',
          cap_hash = ''POST:/orders/:{'' @ QuoteJSONString ''item'' @ '':'' @ QuoteJSONString ''x'' @ ''}''\<rparr>"]
  by (simp add: eval_defs)

subsection \<open>C6: one row for each tuple, and an append-only store\<close>

text \<open>
  C6: when no two rows of the store have the same tuple (agent, key, method, route),
  this still holds after the listener has run, on whatever store it meets, and after a
  whole request. An insert for a tuple that has a row returns without an error and with
  the store as it was, and so does the listener. The rows of the store before are the
  first rows of the store after, unchanged: the core appends and does nothing else.
\<close>

theorem one_record_per_tuple:
  "(distinct (map tuple_of (idempotency_keys db)) \<longrightarrow>
      distinct (map tuple_of (idempotency_keys (on_finish db cap rep)))
      \<and> distinct (map tuple_of (idempotency_keys (snd (serve sha256 methods handler db req)))))
   \<and> (insert_fault db = None \<and> tuple_of row \<in> tuple_of ` set (idempotency_keys db) \<longrightarrow>
      query db row = Inr db)
   \<and> ((cap_agent_id cap, cap_key cap, cap_method cap, cap_route cap) \<in> tuple_of ` set (idempotency_keys db) \<longrightarrow>
      on_finish db cap rep = db)
   \<and> (\<exists>new. idempotency_keys (on_finish db cap rep) = idempotency_keys db @ new)
   \<and> (\<exists>new. idempotency_keys (snd (serve sha256 methods handler db req)) = idempotency_keys db @ new)"
proof -
  have d: "distinct (map tuple_of (idempotency_keys (on_finish db cap rep)))"
    if "distinct (map tuple_of (idempotency_keys db))" for cap rep
    using on_finish_cases [of db cap rep] that by (auto simp: tuple_of_def)
  have a: "\<exists>new. idempotency_keys (on_finish db cap rep) = idempotency_keys db @ new" for cap rep
    using on_finish_cases [of db cap rep] by auto
  have q: "query db row = Inr db"
    if "insert_fault db = None" "tuple_of row \<in> tuple_of ` set (idempotency_keys db)"
    using that find_tuple_None [of "agent_id row" "idem_key row" "row_method row" "row_route row" "idempotency_keys db"]
    by (auto simp: query_def tuple_of_def split: option.splits)
  have n: "on_finish db cap rep = db"
    if "(cap_agent_id cap, cap_key cap, cap_method cap, cap_route cap) \<in> tuple_of ` set (idempotency_keys db)"
    using on_finish_cases [of db cap rep] that by auto
  have ds: "distinct (map tuple_of (idempotency_keys (snd (serve sha256 methods handler db req))))"
    if "distinct (map tuple_of (idempotency_keys db))"
    using serve_store [of sha256 methods handler db req] d [OF that] that by auto
  have as: "\<exists>new. idempotency_keys (snd (serve sha256 methods handler db req)) = idempotency_keys db @ new"
    using serve_store [of sha256 methods handler db req] a by auto
  show ?thesis
    using d ds q n a as by blast
qed

theorem one_record_per_tuple_witness:
  "distinct (map tuple_of (idempotency_keys (store_of [order_row (order_hash (item ''x'')) (Some 201) (JStr ''created'')])))
   \<and> insert_fault (store_of [order_row (order_hash (item ''x'')) (Some 201) (JStr ''created'')]) = None
   \<and> tuple_of (order_row (order_hash (item ''y'')) (Some 200) JNull)
        \<in> tuple_of ` set (idempotency_keys (store_of [order_row (order_hash (item ''x'')) (Some 201) (JStr ''created'')]))
   \<and> query (store_of [order_row (order_hash (item ''x'')) (Some 201) (JStr ''created'')])
        (order_row (order_hash (item ''y'')) (Some 200) JNull)
      = Inr (store_of [order_row (order_hash (item ''x'')) (Some 201) (JStr ''created'')])
   \<and> on_finish (store_of [order_row (order_hash (item ''x'')) (Some 201) (JStr ''created'')])
        \<lparr>cap_agent_id = ''agent-1'', cap_key = ''abc'', cap_method = ''POST'', cap_route = ''/orders/'',
          cap_hash = ''h''\<rparr>
        \<lparr>statusCode = 200, idemBody = JNull\<rparr>
      = store_of [order_row (order_hash (item ''x'')) (Some 201) (JStr ''created'')]"
  using one_record_per_tuple
    [of "store_of [order_row (order_hash (item ''x'')) (Some 201) (JStr ''created'')]"
        "\<lparr>cap_agent_id = ''agent-1'', cap_key = ''abc'', cap_method = ''POST'', cap_route = ''/orders/'',
          cap_hash = ''h''\<rparr>"
        "\<lparr>statusCode = 200, idemBody = JNull\<rparr>"
        plain_digest "idempotency None" created "order_request (Some ''abc'') (item ''x'')"
        "order_row (order_hash (item ''y'')) (Some 200) JNull"]
  by (simp add: store_of_def order_row_def tuple_of_def)

subsection \<open>C7: the bypass\<close>

text \<open>
  C7: when the method of the request, in upper case, is not among the configured
  methods (which \<open>idempotency\<close> holds in upper case, and which are \<open>POST\<close> alone when no
  option is given), or the request has no caller or a caller without an id, or its
  trimmed key is empty or longer than 200 characters, the middleware calls \<open>next()\<close>
  and nothing else: the handler runs, its reply is the outcome, and the store is left
  as it was.
\<close>

theorem bypass_passes_through:
  assumes "toUpperCase (req_method req) \<notin> set (idempotency opts_methods)
           \<or> agent req = None
           \<or> (\<exists>ag. agent req = Some ag \<and> ident ag = [])
           \<or> trim (or_empty (idempotency_key req)) = []
           \<or> length (trim (or_empty (idempotency_key req))) > 200"
  shows "idempotencyMiddleware sha256 (idempotency opts_methods) db req = Next
         \<and> serve sha256 (idempotency opts_methods) handler db req = (Handled (handler req), db)
         \<and> idempotency None = [''POST'']"
proof -
  have "idempotencyMiddleware sha256 (idempotency opts_methods) db req = Next"
    using assms by (auto simp: idempotencyMiddleware_def Let_def split: option.splits)
  then show ?thesis
    by (simp add: serve_def idempotency_default)
qed

theorem bypass_passes_through_witness:
  "length (trim (or_empty (idempotency_key (order_request (Some (replicate 201 CHR ''k'')) (item ''x''))))) > 200
   \<and> serve plain_digest (idempotency None) created
        (store_of [order_row (order_hash (item ''x'')) (Some 201) (JStr ''created'')])
        (order_request (Some (replicate 201 CHR ''k'')) (item ''x''))
      = (Handled (created (order_request (Some (replicate 201 CHR ''k'')) (item ''x''))),
         store_of [order_row (order_hash (item ''x'')) (Some 201) (JStr ''created'')])
   \<and> toUpperCase (req_method ((order_request (Some ''abc'') (item ''x''))\<lparr>req_method := ''get''\<rparr>))
        \<notin> set (idempotency None)
   \<and> serve plain_digest (idempotency None) created
        (store_of [order_row (order_hash (item ''x'')) (Some 201) (JStr ''created'')])
        ((order_request (Some ''abc'') (item ''x''))\<lparr>req_method := ''get''\<rparr>)
      = (Handled (created ((order_request (Some ''abc'') (item ''x''))\<lparr>req_method := ''get''\<rparr>)),
         store_of [order_row (order_hash (item ''x'')) (Some 201) (JStr ''created'')])"
proof -
  have long: "length (trim (or_empty (idempotency_key (order_request (Some (replicate 201 CHR ''k'')) (item ''x''))))) > 200"
    by (simp add: order_request_def or_empty_def trim_def is_space_def)
  have other: "toUpperCase (req_method ((order_request (Some ''abc'') (item ''x''))\<lparr>req_method := ''get''\<rparr>))
        \<notin> set (idempotency None)"
    by (simp add: order_request_def idempotency_default toUpperCase_def upper_char_def)
  show ?thesis
    using long other
      bypass_passes_through
        [of "order_request (Some (replicate 201 CHR ''k'')) (item ''x'')" None plain_digest
            "store_of [order_row (order_hash (item ''x'')) (Some 201) (JStr ''created'')]" created]
      bypass_passes_through
        [of "(order_request (Some ''abc'') (item ''x''))\<lparr>req_method := ''get''\<rparr>" None plain_digest
            "store_of [order_row (order_hash (item ''x'')) (Some 201) (JStr ''created'')]" created]
    by blast
qed

subsection \<open>C8: the fingerprint and the order of keys\<close>

text \<open>
  C8: the fingerprint is a function of method, route and body, and it does not see the
  order of the keys of an object-valued body: two objects with the same properties
  (distinct keys, the same key and value pairs in any order) have the same fingerprint,
  and so have two bodies that differ only in the order of keys at any depth. A
  string-valued body is hashed as it is, behind the method and the route, and an absent
  body (\<open>undefined\<close> or \<open>null\<close>) has the fingerprint of the empty string.
\<close>

theorem fingerprint_ignores_key_order:
  "(distinct (map fst kvs) \<and> mset kvs' = mset kvs \<longrightarrow>
      requestHash sha256 m r (JObj kvs') = requestHash sha256 m r (JObj kvs))
   \<and> (reordered b b' \<longrightarrow> requestHash sha256 m r b' = requestHash sha256 m r b)
   \<and> requestHash sha256 m r (JStr s) = Inr (sha256 (m @ '':'' @ r @ '':'' @ s))
   \<and> requestHash sha256 m r JUndefined = requestHash sha256 m r (JStr [])
   \<and> requestHash sha256 m r JNull = requestHash sha256 m r (JStr [])"
proof -
  have "stableStringify (JObj kvs') = stableStringify (JObj kvs)"
    if "distinct (map fst kvs)" "mset kvs' = mset kvs"
    using sort_keys_mset [OF that(2)] map_of_mset [OF that]
    by (simp add: stableStringify_JObj)
  moreover have "stableStringify b' = stableStringify b" if "reordered b b'"
    using reordered_stableStringify [OF that] by simp
  ultimately show ?thesis
    by (simp add: requestHash_def stableStringify_def)
qed

theorem fingerprint_ignores_key_order_witness:
  "distinct (map fst [(''b'', JNum 1), (''a'', JStr ''x'')])
   \<and> mset [(''a'', JStr ''x''), (''b'', JNum 1)] = mset [(''b'', JNum 1), (''a'', JStr ''x'')]
   \<and> requestHash plain_digest ''POST'' ''/orders/'' (JObj [(''a'', JStr ''x''), (''b'', JNum 1)])
      = requestHash plain_digest ''POST'' ''/orders/'' (JObj [(''b'', JNum 1), (''a'', JStr ''x'')])
   \<and> reordered (JObj [(''a'', JObj [(''x'', JNum 1), (''y'', JNum 2)]), (''b'', JNum 1)])
                 (JObj [(''b'', JNum 1), (''a'', JObj [(''y'', JNum 2), (''x'', JNum 1)])])
   \<and> requestHash plain_digest ''POST'' ''/orders/''
        (JObj [(''b'', JNum 1), (''a'', JObj [(''y'', JNum 2), (''x'', JNum 1)])])
      = requestHash plain_digest ''POST'' ''/orders/''
        (JObj [(''a'', JObj [(''x'', JNum 1), (''y'', JNum 2)]), (''b'', JNum 1)])"
  using fingerprint_ignores_key_order
    [of "[(''b'', JNum 1), (''a'', JStr ''x'')]" "[(''a'', JStr ''x''), (''b'', JNum 1)]"
        plain_digest "''POST''" "''/orders/''"
        "JObj [(''a'', JObj [(''x'', JNum 1), (''y'', JNum 2)]), (''b'', JNum 1)]"
        "JObj [(''b'', JNum 1), (''a'', JObj [(''y'', JNum 2), (''x'', JNum 1)])]"]
  by auto

subsection \<open>C9: unserializable bodies\<close>

text \<open>
  C9, as the code has it: for every body that holds no BigInt the fingerprinter returns
  a hash and raises nothing. For a body that \<open>JSON.stringify\<close> refuses, the fingerprinter
  raises the TypeError of \<open>JSON.stringify\<close>; in a request that is not bypassed the \<open>catch\<close>
  of the middleware passes it to \<open>next(err)\<close>, so the handler is not run and the store
  is left as it was.
\<close>

theorem fingerprint_defined_on_serializable:
  "(serializable b \<longrightarrow> (\<exists>h. requestHash sha256 m r b = Inr h))
   \<and> (toUpperCase (req_method req) \<in> set methods
        \<and> agent req = Some ag \<and> ident ag \<noteq> []
        \<and> trim (or_empty (idempotency_key req)) \<noteq> []
        \<and> length (trim (or_empty (idempotency_key req))) \<le> 200
        \<and> requestHash sha256 (req_method req) (route_of req) (body req) = Inl err \<longrightarrow>
      idempotencyMiddleware sha256 methods db req = NextErr err
      \<and> serve sha256 methods handler db req = (Errored err, db))"
proof -
  have "\<exists>h. requestHash sha256 m r b = Inr h" if "serializable b"
    using stableStringify_defined [OF that] by (auto simp: requestHash_def)
  then show ?thesis
    by (auto simp: idempotencyMiddleware_def serve_def Let_def)
qed

theorem fingerprint_defined_on_serializable_witness:
  "serializable (item ''x'')
   \<and> (\<exists>h. requestHash plain_digest ''POST'' ''/orders/'' (item ''x'') = Inr h)
   \<and> requestHash plain_digest (req_method (order_request (Some ''abc'') (JArr [JBigInt 1])))
        (route_of (order_request (Some ''abc'') (JArr [JBigInt 1])))
        (body (order_request (Some ''abc'') (JArr [JBigInt 1]))) = Inl TypeError
   \<and> idempotencyMiddleware plain_digest (idempotency None) empty_store
        (order_request (Some ''abc'') (JArr [JBigInt 1])) = NextErr TypeError"
  using fingerprint_defined_on_serializable
    [of "item ''x''" plain_digest "''POST''" "''/orders/''"
        "order_request (Some ''abc'') (JArr [JBigInt 1])" "idempotency None"
        "\<lparr>ident = ''agent-1''\<rparr>" TypeError empty_store created]
  by (simp add: eval_defs)

text \<open>
  C9 as stated fails: the fingerprinter raises on a body that \<open>JSON.stringify\<close> refuses
  (here a BigInt), and the request, which the handler would have answered with 201,
  ends with that error.
\<close>

theorem unserializable_body_fails_the_request:
  "requestHash plain_digest ''POST'' ''/orders/'' (JBigInt 1) = Inl TypeError
   \<and> serve plain_digest (idempotency None) created empty_store
        (order_request (Some ''abc'') (JBigInt 1))
      = (Errored TypeError, empty_store)
   \<and> serve plain_digest (idempotency None) created empty_store
        (order_request None (JBigInt 1))
      = (Handled \<lparr>statusCode = 201, idemBody = JStr ''created''\<rparr>, empty_store)"
  by (simp add: eval_defs)

subsection \<open>C10: the key is trimmed\<close>

text \<open>
  C10: the middleware uses the header \<open>Idempotency-Key\<close> only trimmed. White space
  around a key does not change what the middleware does, against any store: the same
  lookup, the same replay or conflict, the same key kept for the commit. A header of
  white space alone is as no header: the middleware calls \<open>next()\<close> and the handler
  runs. The key kept for the commit is the trimmed one.
\<close>

theorem key_is_trimmed:
  "(list_all is_space pre \<and> list_all is_space post \<longrightarrow>
      idempotencyMiddleware sha256 methods db (req\<lparr>idempotency_key := Some (pre @ k @ post)\<rparr>)
      = idempotencyMiddleware sha256 methods db (req\<lparr>idempotency_key := Some k\<rparr>))
   \<and> (list_all is_space h \<longrightarrow>
      idempotencyMiddleware sha256 methods db (req\<lparr>idempotency_key := Some h\<rparr>) = Next
      \<and> idempotencyMiddleware sha256 methods db (req\<lparr>idempotency_key := None\<rparr>) = Next
      \<and> serve sha256 methods handler db (req\<lparr>idempotency_key := Some h\<rparr>)
          = (Handled (handler (req\<lparr>idempotency_key := Some h\<rparr>)), db))
   \<and> (idempotencyMiddleware sha256 methods db req = NextCapturing cap \<longrightarrow>
      cap_key cap = trim (or_empty (idempotency_key req)))"
proof -
  have pad: "idempotencyMiddleware sha256 methods db (req\<lparr>idempotency_key := Some (pre @ k @ post)\<rparr>)
      = idempotencyMiddleware sha256 methods db (req\<lparr>idempotency_key := Some k\<rparr>)"
    if "list_all is_space pre" "list_all is_space post"
  proof -
    have "trim (or_empty (Some (pre @ k @ post))) = trim (or_empty (Some k))"
      using trim_padding [OF that, of k] by (simp add: or_empty_def)
    then show ?thesis
      unfolding middleware_by_key by (simp only:)
  qed
  have blank: "idempotencyMiddleware sha256 methods db (req\<lparr>idempotency_key := Some h\<rparr>) = Next"
    if "list_all is_space h"
    using trim_blank [OF that]
    by (cases "agent req") (simp_all add: middleware_by_key or_empty_def)
  have absent: "idempotencyMiddleware sha256 methods db (req\<lparr>idempotency_key := None\<rparr>) = Next"
    by (cases "agent req") (simp_all add: middleware_by_key or_empty_def trim_def)
  have stored: "cap_key cap = trim (or_empty (idempotency_key req))"
    if "idempotencyMiddleware sha256 methods db req = NextCapturing cap"
    using that
    by (auto simp: idempotencyMiddleware_def Let_def split: if_splits option.splits sum.splits)
  show ?thesis
    using pad blank absent stored by (auto simp: serve_def)
qed

theorem key_is_trimmed_witness:
  "list_all is_space '' '' \<and> list_all is_space ''  ''
   \<and> idempotencyMiddleware plain_digest (idempotency None)
        (store_of [order_row (order_hash (item ''x'')) (Some 201) (JStr ''created'')])
        (order_request (Some ('' '' @ ''abc'' @ ''  '')) (item ''x''))
      = Sent \<lparr>status = 201, headers = [(''Idempotent-Replay'', ''true'')], json_body = JStr ''created''\<rparr>
   \<and> idempotencyMiddleware plain_digest (idempotency None) empty_store
        (order_request (Some ''  '') (item ''x'')) = Next
   \<and> idempotencyMiddleware plain_digest (idempotency None) empty_store
        (order_request (Some ''  abc '') (JStr ''x''))
      = NextCapturing \<lparr>cap_agent_id = ''agent-1'', cap_key = ''abc'', cap_method = ''POST'',
                       cap_route = ''/orders/'', cap_hash = ''POST:/orders/:x''\<rparr>
   \<and> trim (or_empty (idempotency_key (order_request (Some ''  abc '') (JStr ''x'')))) = ''abc''"
  using key_is_trimmed
    [of "'' ''" "''  ''" plain_digest "idempotency None"
        "store_of [order_row (order_hash (item ''x'')) (Some 201) (JStr ''created'')]"
        "''abc''" "order_request None (item ''x'')" "''  ''" created]
     key_is_trimmed
    [of "'' ''" "''  ''" plain_digest "idempotency None" empty_store
        "''abc''" "order_request (Some ''  abc '') (JStr ''x'')" "''  ''" created
        "\<lparr>cap_agent_id = ''agent-1'', cap_key = ''abc'', cap_method = ''POST'',
          cap_route = ''/orders/'', cap_hash = ''POST:/orders/:x''\<rparr>"]
  by (simp add: eval_defs)

end
